theory Spec2Isabelle
  imports Complex_Main "HOL-Library.AList" "HOL-Library.Word"
begin

section \<open>Data model\<close>

text \<open>
  The network layer of coretexpylib: \<^verbatim>\<open>RequestsManager\<close> (transport),
  \<^verbatim>\<open>NetworkManagerBase\<close> (authenticated client) and \<^verbatim>\<open>ChunkUploadSession\<close>.
  Python values that travel in dictionaries (request parameters, JSON bodies, header
  values) are dynamically typed; \<open>pyvalue\<close> keeps the cases the code distinguishes.
\<close>

type_synonym bytes = "8 word list"

type_synonym path = "string list"

datatype pyvalue = PyNone | PyBool bool | PyInt int | PyStr string

type_synonym pydict = "(string \<times> pyvalue) list"

text \<open>
  Modelled from the spec: \<^verbatim>\<open>request_type.py\<close> is not among the sources; the spec gives
  the method as one of GET/POST/DELETE/PUT.
\<close>

datatype RequestType = RequestType_get | RequestType_post | RequestType_put | RequestType_delete

text \<open>
  The \<^verbatim>\<open>data\<close> argument of a request: absent, the text \<^verbatim>\<open>json.dumps(parameters)\<close>
  (kept as the dictionary it serialises), or a dictionary sent as form fields.
\<close>

datatype payload = NoData | JsonDumps pydict | FormFields pydict

text \<open>Multipart files: field name, then (file name, content, mime type).\<close>

type_synonym files = "(string \<times> string \<times> bytes \<times> string) list"

record request =
  req_method :: RequestType
  req_url :: string
  req_headers :: "pydict option"
  req_data :: payload
  req_json :: "pydict option"
  req_files :: "files option"
  req_auth :: "(string \<times> string) option"

text \<open>
  Modelled from the spec: \<^verbatim>\<open>network_response.py\<close> is not among the sources. The spec's
  Response is \<^verbatim>\<open>{ statusCode, rawBody, parsedJSON: mapping|absent, ok }\<close>; \<open>ok\<close> is
  computed from the status code below.
\<close>

record NetworkResponse =
  statusCode :: int
  rawBody :: bytes
  parsedJSON :: "pydict option"

text \<open>
  Modelled from the spec: the \<^verbatim>\<open>json\<close> attribute of a response. An absent body parses
  to the empty mapping, so that a key lookup on it finds nothing.
\<close>

definition json_of :: "NetworkResponse \<Rightarrow> pydict" where
  "json_of response = (case parsedJSON response of None \<Rightarrow> [] | Some m \<Rightarrow> m)"

text \<open>
  \<^verbatim>\<open>response.raw.ok\<close> of the \<^verbatim>\<open>requests\<close> library: false exactly for the client
  and server error codes 400..599.
\<close>

definition ok :: "NetworkResponse \<Rightarrow> bool" where
  "ok response = (\<not> (400 \<le> statusCode response \<and> statusCode response < 600))"

text \<open>
  Modelled from the spec: \<^verbatim>\<open>hasFailed()\<close> is true when the status code is not in the
  success range, the range \<open>ok\<close> accepts.
\<close>

definition hasFailed :: "NetworkResponse \<Rightarrow> bool" where
  "hasFailed response = (\<not> ok response)"

text \<open>Modelled from the spec: the \<^verbatim>\<open>HttpCode\<close> constants 401, 500 and 503.\<close>

definition HttpCode_unauthorized :: int where
  "HttpCode_unauthorized = 401"

definition HttpCode_internalServerError :: int where
  "HttpCode_internalServerError = 500"

definition HttpCode_serviceUnavailable :: int where
  "HttpCode_serviceUnavailable = 503"

definition isUnauthorized :: "NetworkResponse \<Rightarrow> bool" where
  "isUnauthorized response = (statusCode response = HttpCode_unauthorized)"

datatype error =
    RequestFailedError
  | RuntimeError
  | ValueError
  | NetworkRequestError NetworkResponse
  | FileNotFoundError
  | FileExistsError
  | NotADirectoryError
  | IsADirectoryError
  | OSError
  | ZeroDivisionError
  | MimeGuessFailed

text \<open>
  What the underlying \<^verbatim>\<open>requests.Session\<close> does with one attempt: it raises, or it
  yields a response (an HTTP error status is a response, not an exception).
\<close>

datatype reply = Raises | Responds NetworkResponse

type_synonym exchange = "request \<times> reply"

text \<open>
  The remote side is any function of the exchanges so far and the request now sent.
\<close>

type_synonym server = "exchange list \<Rightarrow> request \<Rightarrow> reply"

datatype node = File bytes | Dir

text \<open>
  The state the code reads and writes: the configuration of the client, its two tokens,
  the HTTP Basic pair of the session, every attempt sent so far with its outcome, and the
  file system.
\<close>

record client =
  baseURL :: string
  coretexVersion :: string
  pythonVersion :: string
  priv_apiToken :: pyvalue
  priv_refreshToken :: pyvalue
  session_auth :: "(string \<times> string) option"
  exchanges :: "exchange list"
  fs :: "path \<rightharpoonup> node"
  dirSize :: int

section \<open>Transport: RequestsManager\<close>

definition RequestsManager_MAX_RETRY_COUNT :: int where
  "RequestsManager_MAX_RETRY_COUNT = 3"

definition make_url :: "client \<Rightarrow> string \<Rightarrow> string" where
  "make_url s endpoint = baseURL s @ endpoint"

text \<open>One call of the session: the attempt and its outcome are recorded.\<close>

definition session_send :: "server \<Rightarrow> request \<Rightarrow> client \<Rightarrow> reply \<times> client" where
  "session_send srv req s =
     (let rep = srv (exchanges s) req
      in (rep, s\<lparr>exchanges := exchanges s @ [(req, rep)]\<rparr>))"

definition genericRequest_request ::
  "client \<Rightarrow> RequestType \<Rightarrow> string \<Rightarrow> pydict option \<Rightarrow> payload \<Rightarrow> files option \<Rightarrow> request" where
  "genericRequest_request s requestType endpoint headers dat fls =
     \<lparr>req_method = requestType, req_url = make_url s endpoint, req_headers = headers,
      req_data = dat, req_json = None, req_files = fls, req_auth = session_auth s\<rparr>"

function genericRequest ::
  "server \<Rightarrow> RequestType \<Rightarrow> string \<Rightarrow> pydict option \<Rightarrow> payload \<Rightarrow> files option \<Rightarrow> int \<Rightarrow> client
     \<Rightarrow> (error + NetworkResponse) \<times> client" where
  "genericRequest srv requestType endpoint headers dat fls retryCount s =
     (case session_send srv (genericRequest_request s requestType endpoint headers dat fls) s of
        (Responds requestsResponse, s1) \<Rightarrow> (Inr requestsResponse, s1)
      | (Raises, s1) \<Rightarrow>
          if retryCount < RequestsManager_MAX_RETRY_COUNT
          then genericRequest srv requestType endpoint headers dat fls (retryCount + 1) s1
          else (Inl RequestFailedError, s1))"
  by pat_completeness auto
termination
  by (relation "measure (\<lambda>(srv, requestType, endpoint, headers, dat, fls, retryCount, s).
        nat (RequestsManager_MAX_RETRY_COUNT - retryCount))") auto

declare genericRequest.simps [simp del]

definition get_request ::
  "client \<Rightarrow> string \<Rightarrow> pydict option \<Rightarrow> payload \<Rightarrow> pydict option \<Rightarrow> request" where
  "get_request s endpoint headers dat jsonObject =
     \<lparr>req_method = RequestType_get, req_url = make_url s endpoint, req_headers = headers,
      req_data = dat, req_json = jsonObject, req_files = None, req_auth = session_auth s\<rparr>"

definition post_request ::
  "client \<Rightarrow> string \<Rightarrow> pydict option \<Rightarrow> payload \<Rightarrow> pydict option \<Rightarrow> request" where
  "post_request s endpoint headers dat jsonObject =
     \<lparr>req_method = RequestType_post, req_url = make_url s endpoint, req_headers = headers,
      req_data = dat, req_json = jsonObject, req_files = None, req_auth = session_auth s\<rparr>"

function get ::
  "server \<Rightarrow> string \<Rightarrow> pydict option \<Rightarrow> payload \<Rightarrow> pydict option \<Rightarrow> int \<Rightarrow> client
     \<Rightarrow> (error + NetworkResponse) \<times> client" where
  "get srv endpoint headers dat jsonObject retryCount s =
     (case session_send srv (get_request s endpoint headers dat jsonObject) s of
        (Responds requestsResponse, s1) \<Rightarrow> (Inr requestsResponse, s1)
      | (Raises, s1) \<Rightarrow>
          if retryCount < RequestsManager_MAX_RETRY_COUNT
          then get srv endpoint headers dat jsonObject (retryCount + 1) s1
          else (Inl RequestFailedError, s1))"
  by pat_completeness auto
termination
  by (relation "measure (\<lambda>(srv, endpoint, headers, dat, jsonObject, retryCount, s).
        nat (RequestsManager_MAX_RETRY_COUNT - retryCount))") auto

declare get.simps [simp del]

function post ::
  "server \<Rightarrow> string \<Rightarrow> pydict option \<Rightarrow> payload \<Rightarrow> pydict option \<Rightarrow> int \<Rightarrow> client
     \<Rightarrow> (error + NetworkResponse) \<times> client" where
  "post srv endpoint headers dat jsonObject retryCount s =
     (case session_send srv (post_request s endpoint headers dat jsonObject) s of
        (Responds requestsResponse, s1) \<Rightarrow> (Inr requestsResponse, s1)
      | (Raises, s1) \<Rightarrow>
          if retryCount < RequestsManager_MAX_RETRY_COUNT
          then post srv endpoint headers dat jsonObject (retryCount + 1) s1
          else (Inl RequestFailedError, s1))"
  by pat_completeness auto
termination
  by (relation "measure (\<lambda>(srv, endpoint, headers, dat, jsonObject, retryCount, s).
        nat (RequestsManager_MAX_RETRY_COUNT - retryCount))") auto

declare post.simps [simp del]

section \<open>Authenticated client: NetworkManagerBase\<close>

definition NetworkManagerBase_MAX_RETRY_COUNT :: int where
  "NetworkManagerBase_MAX_RETRY_COUNT = 3"

definition refreshEndpoint :: string where
  "refreshEndpoint = ''user/refresh''"

definition apiTokenHeaderField :: string where
  "apiTokenHeaderField = ''api-token''"

definition apiTokenKey :: string where
  "apiTokenKey = ''token''"

definition userAgent :: "client \<Rightarrow> string" where
  "userAgent s = ''coretexpylib;'' @ coretexVersion s @ '';python;'' @ pythonVersion s"

text \<open>\<^verbatim>\<open>_requestHeader\<close>: the token is read from the state at the moment of the call.\<close>

definition requestHeader :: "client \<Rightarrow> pydict" where
  "requestHeader s =
     (let header =
        [(''Content-Type'', PyStr ''application/json''),
         (''Accept'', PyStr ''*/*''),
         (''Cache-Control'', PyStr ''no-cache''),
         (''Accept-Encoding'', PyStr ''gzip, deflate''),
         (''Content-Length'', PyStr ''0''),
         (''Connection'', PyStr ''keep-alive''),
         (''cache-control'', PyStr ''no-cache''),
         (''X-User-Agent'', PyStr (userAgent s))]
      in if priv_apiToken s \<noteq> PyNone
         then AList.update apiTokenHeaderField (priv_apiToken s) header
         else header)"

definition refreshToken :: "server \<Rightarrow> client \<Rightarrow> (error + NetworkResponse) \<times> client" where
  "refreshToken srv s =
     (let headers = requestHeader s;
          headers1 = (if priv_refreshToken s \<noteq> PyNone
                      then AList.update apiTokenHeaderField (priv_refreshToken s) headers
                      else headers)
      in case genericRequest srv RequestType_post refreshEndpoint (Some headers1) NoData None 0 s of
           (Inl e, s1) \<Rightarrow> (Inl e, s1)
         | (Inr networkResponse, s1) \<Rightarrow>
             (case map_of (json_of networkResponse) apiTokenKey of
                Some token \<Rightarrow> (Inr networkResponse, s1\<lparr>priv_apiToken := token\<rparr>)
              | None \<Rightarrow> (Inr networkResponse, s1)))"

definition shouldRetry ::
  "server \<Rightarrow> int \<Rightarrow> NetworkResponse \<Rightarrow> client \<Rightarrow> (error + bool) \<times> client" where
  "shouldRetry srv retryCount response s =
     (if retryCount = NetworkManagerBase_MAX_RETRY_COUNT then (Inr False, s)
      else if isUnauthorized response then
        (case refreshToken srv s of
           (Inl e, s1) \<Rightarrow> (Inl e, s1)
         | (Inr refreshTokenResponse, s1) \<Rightarrow> (Inr (\<not> hasFailed refreshTokenResponse), s1))
      else (Inr (statusCode response = HttpCode_internalServerError \<or>
                 statusCode response = HttpCode_serviceUnavailable), s))"

text \<open>
  The three retrying operations call themselves with \<open>retryCount + 1\<close>. The counter is a
  Python integer and the stop test is an equality, so a call that starts above the bound
  need not return: not returning is the value \<open>None\<close>.
\<close>

partial_function (option) genericJSONRequest ::
  "server \<Rightarrow> string \<Rightarrow> RequestType \<Rightarrow> pydict option \<Rightarrow> pydict option \<Rightarrow> int \<Rightarrow> client
     \<Rightarrow> ((error + NetworkResponse) \<times> client) option" where
  "genericJSONRequest srv endpoint requestType parameters headers retryCount s =
     (let headers1 = (case headers of None \<Rightarrow> requestHeader s | Some h \<Rightarrow> h);
          parameters1 = (case parameters of None \<Rightarrow> [] | Some p \<Rightarrow> p)
      in case genericRequest srv requestType endpoint (Some headers1) (JsonDumps parameters1) None 0 s of
           (Inl e, s1) \<Rightarrow> Some (Inl e, s1)
         | (Inr networkResponse, s1) \<Rightarrow>
             (case shouldRetry srv retryCount networkResponse s1 of
                (Inl e, s2) \<Rightarrow> Some (Inl e, s2)
              | (Inr again, s2) \<Rightarrow>
                  if again
                  then genericJSONRequest srv endpoint requestType (Some parameters1) (Some headers1)
                         (retryCount + 1) s2
                  else Some (Inr networkResponse, s2)))"

partial_function (option) genericUpload ::
  "server \<Rightarrow> string \<Rightarrow> files \<Rightarrow> pydict option \<Rightarrow> int \<Rightarrow> client
     \<Rightarrow> ((error + NetworkResponse) \<times> client) option" where
  "genericUpload srv endpoint fls parameters retryCount s =
     (let headers = AList.delete ''Content-Type'' (requestHeader s);
          parameters1 = (case parameters of None \<Rightarrow> [] | Some p \<Rightarrow> p)
      in case genericRequest srv RequestType_post endpoint (Some headers) (FormFields parameters1)
                (Some fls) 0 s of
           (Inl e, s1) \<Rightarrow> Some (Inl e, s1)
         | (Inr networkResponse, s1) \<Rightarrow>
             (case shouldRetry srv retryCount networkResponse s1 of
                (Inl e, s2) \<Rightarrow> Some (Inl e, s2)
              | (Inr again, s2) \<Rightarrow>
                  if again
                  then genericUpload srv endpoint fls (Some parameters1) (retryCount + 1) s2
                  else Some (Inr networkResponse, s2)))"

definition genericDelete :: "server \<Rightarrow> string \<Rightarrow> client \<Rightarrow> (error + NetworkResponse) \<times> client" where
  "genericDelete srv endpoint s =
     genericRequest srv RequestType_delete endpoint (Some (requestHeader s)) NoData None 0 s"

section \<open>The file system, as \<^verbatim>\<open>pathlib\<close> and \<^verbatim>\<open>open\<close> see it\<close>

text \<open>
  A path is its list of components; the empty path is the directory the others are
  relative to, and it always exists.
\<close>

definition node_at :: "(path \<rightharpoonup> node) \<Rightarrow> path \<Rightarrow> node option" where
  "node_at f p = (if p = [] then Some Dir else f p)"

definition Path_is_dir :: "(path \<rightharpoonup> node) \<Rightarrow> path \<Rightarrow> bool" where
  "Path_is_dir f p = (node_at f p = Some Dir)"

definition Path_exists :: "(path \<rightharpoonup> node) \<Rightarrow> path \<Rightarrow> bool" where
  "Path_exists f p = (node_at f p \<noteq> None)"

definition Path_parent :: "path \<Rightarrow> path" where
  "Path_parent p = butlast p"

definition Path_name :: "path \<Rightarrow> string" where
  "Path_name p = (if p = [] then [] else last p)"

text \<open>\<^verbatim>\<open>unlink(missing_ok = True)\<close>.\<close>

definition Path_unlink :: "(path \<rightharpoonup> node) \<Rightarrow> path \<Rightarrow> error + (path \<rightharpoonup> node)" where
  "Path_unlink f p =
     (case node_at f p of
        Some Dir \<Rightarrow> Inl IsADirectoryError
      | Some (File c) \<Rightarrow> Inr (f(p := None))
      | None \<Rightarrow> Inr f)"

definition os_mkdir :: "(path \<rightharpoonup> node) \<Rightarrow> path \<Rightarrow> error + (path \<rightharpoonup> node)" where
  "os_mkdir f p =
     (if node_at f p \<noteq> None then Inl FileExistsError
      else case node_at f (Path_parent p) of
             None \<Rightarrow> Inl FileNotFoundError
           | Some (File c) \<Rightarrow> Inl NotADirectoryError
           | Some Dir \<Rightarrow> Inr (f(p \<mapsto> Dir)))"

text \<open>
  \<^verbatim>\<open>Path.mkdir(parents = True, exist_ok = True)\<close>, as pathlib does it: try the directory
  itself; when its parent is missing, make the parent the same way and try once more; any
  other failure is forgiven exactly when the path is a directory already.
\<close>

function Path_mkdir :: "(path \<rightharpoonup> node) \<Rightarrow> path \<Rightarrow> error + (path \<rightharpoonup> node)" where
  "Path_mkdir f p =
     (case os_mkdir f p of
        Inr f1 \<Rightarrow> Inr f1
      | Inl e \<Rightarrow>
          if e = FileNotFoundError then
            (if p = [] then Inl e
             else case Path_mkdir f (Path_parent p) of
                    Inl e1 \<Rightarrow> Inl e1
                  | Inr f1 \<Rightarrow>
                      (case os_mkdir f1 p of
                         Inr f2 \<Rightarrow> Inr f2
                       | Inl e2 \<Rightarrow>
                           if e2 = FileNotFoundError then Inl e2
                           else if Path_is_dir f1 p then Inr f1 else Inl e2))
          else if Path_is_dir f p then Inr f else Inl e)"
  by pat_completeness auto
termination
  by (relation "measure (\<lambda>(f, p). length p)") (auto simp: Path_parent_def)

declare Path_mkdir.simps [simp del]

text \<open>\<^verbatim>\<open>open(destination, "wb")\<close> followed by one \<^verbatim>\<open>write\<close> of the whole content.\<close>

definition open_wb_write :: "(path \<rightharpoonup> node) \<Rightarrow> path \<Rightarrow> bytes \<Rightarrow> error + (path \<rightharpoonup> node)" where
  "open_wb_write f p content =
     (case node_at f p of
        Some Dir \<Rightarrow> Inl IsADirectoryError
      | _ \<Rightarrow>
          (case node_at f (Path_parent p) of
             None \<Rightarrow> Inl FileNotFoundError
           | Some (File c) \<Rightarrow> Inl NotADirectoryError
           | Some Dir \<Rightarrow> Inr (f(p \<mapsto> File content))))"

text \<open>\<^verbatim>\<open>lstat().st_size\<close>; what a directory reports is the platform's business.\<close>

definition lstat_st_size :: "client \<Rightarrow> path \<Rightarrow> error + int" where
  "lstat_st_size s p =
     (case node_at (fs s) p of
        None \<Rightarrow> Inl FileNotFoundError
      | Some (File c) \<Rightarrow> Inr (int (length c))
      | Some Dir \<Rightarrow> Inr (dirSize s))"

partial_function (option) genericDownload ::
  "server \<Rightarrow> string \<Rightarrow> path \<Rightarrow> pydict option \<Rightarrow> int \<Rightarrow> client
     \<Rightarrow> ((error + NetworkResponse) \<times> client) option" where
  "genericDownload srv endpoint destination parameters retryCount s =
     (let headers = requestHeader s;
          parameters1 = (case parameters of None \<Rightarrow> [] | Some p \<Rightarrow> p)
      in case get srv endpoint (Some headers) NoData (Some parameters1) 0 s of
           (Inl e, s1) \<Rightarrow> Some (Inl e, s1)
         | (Inr response, s1) \<Rightarrow>
             (case shouldRetry srv retryCount response s1 of
                (Inl e, s2) \<Rightarrow> Some (Inl e, s2)
              | (Inr again, s2) \<Rightarrow>
                  if again
                  then genericDownload srv endpoint destination (Some parameters1) (retryCount + 1) s2
                  else if ok response then
                    (if Path_is_dir (fs s2) destination then Some (Inl RuntimeError, s2)
                     else case (if Path_exists (fs s2) destination
                                then Path_unlink (fs s2) destination else Inr (fs s2)) of
                            Inl e \<Rightarrow> Some (Inl e, s2)
                          | Inr f1 \<Rightarrow>
                              (case Path_mkdir f1 (Path_parent destination) of
                                 Inl e \<Rightarrow> Some (Inl e, s2\<lparr>fs := f1\<rparr>)
                               | Inr f2 \<Rightarrow>
                                   (case open_wb_write f2 destination (rawBody response) of
                                      Inl e \<Rightarrow> Some (Inl e, s2\<lparr>fs := f2\<rparr>)
                                    | Inr f3 \<Rightarrow> Some (Inr response, s2\<lparr>fs := f3\<rparr>))))
                  else Some (Inr response, s2)))"

section \<open>ChunkUploadSession\<close>

definition MAX_CHUNK_SIZE :: int where
  "MAX_CHUNK_SIZE = 128 * 1024 * 1024"

record ChunkUploadSession =
  chunkSize :: int
  filePath :: path
  fileSize :: int
  mimeType :: string

text \<open>
  \<^verbatim>\<open>__init__\<close>. The mime type guesser of \<^verbatim>\<open>utils\<close> is not among the sources: it is a
  parameter, and \<open>None\<close> is a guess that fails (the class documents that an exception is
  raised then).
\<close>

definition ChunkUploadSession_init ::
  "(path \<Rightarrow> string option) \<Rightarrow> int \<Rightarrow> path \<Rightarrow> string option \<Rightarrow> client \<Rightarrow> error + ChunkUploadSession" where
  "ChunkUploadSession_init guessMimeType chunkSize0 filePath0 mimeType0 s =
     (if chunkSize0 \<le> 0 \<or> chunkSize0 > MAX_CHUNK_SIZE then Inl ValueError
      else case (case mimeType0 of
                   None \<Rightarrow> (case guessMimeType filePath0 of
                              None \<Rightarrow> Inl MimeGuessFailed
                            | Some m \<Rightarrow> Inr m)
                 | Some m \<Rightarrow> Inr m) of
             Inl e \<Rightarrow> Inl e
           | Inr mimeType1 \<Rightarrow>
               (case lstat_st_size s filePath0 of
                  Inl e \<Rightarrow> Inl e
                | Inr size0 \<Rightarrow>
                    Inr \<lparr>chunkSize = chunkSize0, filePath = filePath0, fileSize = size0,
                         mimeType = mimeType1\<rparr>))"

text \<open>\<^verbatim>\<open>_loadChunk\<close>: open, seek to \<open>start\<close>, read at most \<open>chunkSize\<close> bytes.\<close>

definition loadChunk :: "client \<Rightarrow> path \<Rightarrow> int \<Rightarrow> int \<Rightarrow> error + bytes" where
  "loadChunk s filePath0 start chunkSize0 =
     (case node_at (fs s) filePath0 of
        None \<Rightarrow> Inl FileNotFoundError
      | Some Dir \<Rightarrow> Inl IsADirectoryError
      | Some (File content) \<Rightarrow>
          if start < 0 then Inl OSError
          else if chunkSize0 < 0 then Inr (drop (nat start) content)
          else Inr (take (nat chunkSize0) (drop (nat start) content)))"

definition ChunkUploadSession_start ::
  "server \<Rightarrow> ChunkUploadSession \<Rightarrow> client \<Rightarrow> ((error + string) \<times> client) option" where
  "ChunkUploadSession_start srv self s =
     (let parameters = [(''size'', PyInt (fileSize self))]
      in case genericJSONRequest srv ''upload/start'' RequestType_post (Some parameters) None 0 s of
           None \<Rightarrow> None
         | Some (Inl e, s1) \<Rightarrow> Some (Inl e, s1)
         | Some (Inr response, s1) \<Rightarrow>
             if hasFailed response then Some (Inl (NetworkRequestError response), s1)
             else (case map_of (json_of response) ''id'' of
                     Some (PyStr uploadId) \<Rightarrow> Some (Inr uploadId, s1)
                   | _ \<Rightarrow> Some (Inl ValueError, s1)))"

definition ChunkUploadSession_uploadChunk ::
  "server \<Rightarrow> ChunkUploadSession \<Rightarrow> string \<Rightarrow> int \<Rightarrow> int \<Rightarrow> client \<Rightarrow> ((error + unit) \<times> client) option" where
  "ChunkUploadSession_uploadChunk srv self uploadId start end' s =
     (case loadChunk s (filePath self) start (chunkSize self) of
        Inl e \<Rightarrow> Some (Inl e, s)
      | Inr chunk \<Rightarrow>
          (let fls = [(''file'', (Path_name (filePath self), chunk, mimeType self))];
               parameters = [(''id'', PyStr uploadId), (''start'', PyInt start),
                             (''end'', PyInt (end' - 1))]
           in case genericUpload srv ''upload/chunk'' fls (Some parameters) 0 s of
                None \<Rightarrow> None
              | Some (Inl e, s1) \<Rightarrow> Some (Inl e, s1)
              | Some (Inr response, s1) \<Rightarrow>
                  if hasFailed response then Some (Inl (NetworkRequestError response), s1)
                  else Some (Inr (), s1)))"

text \<open>The body of the \<^verbatim>\<open>for i in range(chunkCount)\<close> loop of \<^verbatim>\<open>run\<close>, over the indices left.\<close>

fun uploadLoop ::
  "server \<Rightarrow> ChunkUploadSession \<Rightarrow> string \<Rightarrow> int list \<Rightarrow> client \<Rightarrow> ((error + unit) \<times> client) option" where
  "uploadLoop srv self uploadId [] s = Some (Inr (), s)"
| "uploadLoop srv self uploadId (i # rest) s =
     (let start = i * chunkSize self;
          end' = min (start + chunkSize self) (fileSize self)
      in case ChunkUploadSession_uploadChunk srv self uploadId start end' s of
           None \<Rightarrow> None
         | Some (Inl e, s1) \<Rightarrow> Some (Inl e, s1)
         | Some (Inr u, s1) \<Rightarrow> uploadLoop srv self uploadId rest s1)"

text \<open>Python's \<^verbatim>\<open>range(n)\<close>: empty when \<open>n \<le> 0\<close>.\<close>

definition py_range :: "int \<Rightarrow> int list" where
  "py_range n = [0..n - 1]"

definition ChunkUploadSession_run ::
  "server \<Rightarrow> ChunkUploadSession \<Rightarrow> client \<Rightarrow> ((error + string) \<times> client) option" where
  "ChunkUploadSession_run srv self s =
     (case ChunkUploadSession_start srv self s of
        None \<Rightarrow> None
      | Some (Inl e, s1) \<Rightarrow> Some (Inl e, s1)
      | Some (Inr uploadId, s1) \<Rightarrow>
          if chunkSize self = 0 then Some (Inl ZeroDivisionError, s1)
          else
            (let chunkCount = fileSize self div chunkSize self;
                 chunkCount1 = (if fileSize self mod chunkSize self \<noteq> 0
                                then chunkCount + 1 else chunkCount)
             in case uploadLoop srv self uploadId (py_range chunkCount1) s1 of
                  None \<Rightarrow> None
                | Some (Inl e, s2) \<Rightarrow> Some (Inl e, s2)
                | Some (Inr u, s2) \<Rightarrow> Some (Inr uploadId, s2)))"

section \<open>Observations and sample inputs used in the statements\<close>

text \<open>The outcome of the last attempt of a transport call, as the exchange log shows it.\<close>

definition outcome_reply :: "error + NetworkResponse \<Rightarrow> reply" where
  "outcome_reply res = (case res of Inl e \<Rightarrow> Raises | Inr r \<Rightarrow> Responds r)"

text \<open>A transport on which every attempt raises.\<close>

definition dead_server :: server where
  "dead_server h req = Raises"

text \<open>A client holding an access token \<open>old\<close> and a refresh token \<open>r\<close>, nothing sent yet.\<close>

definition sample_client :: client where
  "sample_client =
     \<lparr>baseURL = ''https://host/api/v1/'', coretexVersion = ''1.0'', pythonVersion = ''3.9'',
      priv_apiToken = PyStr ''old'', priv_refreshToken = PyStr ''r'', session_auth = None,
      exchanges = [], fs = Map.empty, dirSize = 4096\<rparr>"

text \<open>The one request \<open>refreshToken\<close> sends: the refresh token stands in the token header.\<close>

definition refreshToken_request :: "client \<Rightarrow> request" where
  "refreshToken_request s =
     genericRequest_request s RequestType_post refreshEndpoint
       (Some (if priv_refreshToken s \<noteq> PyNone
              then AList.update apiTokenHeaderField (priv_refreshToken s) (requestHeader s)
              else requestHeader s))
       NoData None"

definition unauthorized_response :: NetworkResponse where
  "unauthorized_response = \<lparr>statusCode = 401, rawBody = [], parsedJSON = None\<rparr>"

text \<open>
  A server whose access tokens expire: the refresh endpoint hands out the token \<open>new\<close>,
  and every other request is accepted with that token and answered 401 without it.
\<close>

definition renewing_server :: server where
  "renewing_server h req =
     (if req_url req = ''https://host/api/v1/user/refresh''
      then Responds \<lparr>statusCode = 200, rawBody = [],
                      parsedJSON = Some [(''token'', PyStr ''new'')]\<rparr>
      else if (case req_headers req of
                 None \<Rightarrow> False
               | Some hs \<Rightarrow> map_of hs ''api-token'' = Some (PyStr ''new''))
      then Responds \<lparr>statusCode = 200, rawBody = [65, 66],
                      parsedJSON = Some [(''id'', PyStr ''u1'')]\<rparr>
      else Responds unauthorized_response)"

text \<open>A server that answers every request with 500.\<close>

definition failing_server :: server where
  "failing_server h req = Responds \<lparr>statusCode = 500, rawBody = [], parsedJSON = None\<rparr>"

text \<open>
  What each recorded attempt shows: the endpoint, the token header it carried, and the
  status that came back (nothing when the attempt raised).
\<close>

definition exchange_summary :: "client \<Rightarrow> (string \<times> pyvalue option \<times> int option) list" where
  "exchange_summary s =
     map (\<lambda>(req, rep).
            (drop (length (baseURL s)) (req_url req),
             (case req_headers req of None \<Rightarrow> None | Some hs \<Rightarrow> map_of hs apiTokenHeaderField),
             (case rep of Raises \<Rightarrow> None | Responds r \<Rightarrow> Some (statusCode r))))
         (exchanges s)"

declare genericJSONRequest.simps [code]

declare genericUpload.simps [code]

declare genericDownload.simps [code]

lemmas genericJSONRequest_induct =
  genericJSONRequest.raw_induct[rotated 1, consumes 1, case_names step]


lemmas genericDownload_induct =
  genericDownload.raw_induct[rotated 1, consumes 1, case_names step]

text \<open>A session on an empty file.\<close>

definition empty_file_session :: ChunkUploadSession where
  "empty_file_session = \<lparr>chunkSize = 16, filePath = [''f''], fileSize = 0, mimeType = ''text/plain''\<rparr>"

text \<open>A client with a valid token and a small file system to download into.\<close>

definition download_client :: client where
  "download_client =
     sample_client\<lparr>priv_apiToken := PyStr ''new'',
       fs := Map.empty([''out''] \<mapsto> Dir, [''a''] \<mapsto> Dir, [''a'', ''f''] \<mapsto> File [1])\<rparr>"








section \<open>Transport: four attempts, then the terminal error\<close>

lemma option_pair_the: "map_option fst z = Some a \<Longrightarrow> z = Some (a, snd (the z))"
  by (cases z) auto

lemma genericRequest_request_exchanges [simp]:
  "genericRequest_request (s\<lparr>exchanges := x\<rparr>) rt ep hs dt fl = genericRequest_request s rt ep hs dt fl"
  by (simp add: genericRequest_request_def make_url_def)

lemma genericRequest_raises_from:
  assumes "\<forall>h. srv h (genericRequest_request s rt ep hs dt fl) = Raises"
  shows "rc \<le> 3 \<Longrightarrow> genericRequest srv rt ep hs dt fl rc s =
           (Inl RequestFailedError,
            s\<lparr>exchanges := exchanges s @
                 replicate (nat (4 - rc)) (genericRequest_request s rt ep hs dt fl, Raises)\<rparr>)"
  using assms
proof (induction srv rt ep hs dt fl rc s rule: genericRequest.induct)
  case (1 srv requestType endpoint headers dat fls retryCount s)
  let ?req = "genericRequest_request s requestType endpoint headers dat fls"
  let ?s1 = "s\<lparr>exchanges := exchanges s @ [(?req, Raises)]\<rparr>"
  have send: "session_send srv ?req s = (Raises, ?s1)"
    using "1.prems" by (simp add: session_send_def)
  show ?case
  proof (cases "retryCount < 3")
    case True
    have "genericRequest srv requestType endpoint headers dat fls (retryCount + 1) ?s1 =
            (Inl RequestFailedError,
             ?s1\<lparr>exchanges := exchanges ?s1 @ replicate (nat (4 - (retryCount + 1))) (?req, Raises)\<rparr>)"
      using "1.IH"[OF send[symmetric] refl] True "1.prems"
      by (simp add: RequestsManager_MAX_RETRY_COUNT_def)
    moreover have "nat (4 - retryCount) = Suc (nat (4 - (retryCount + 1)))"
      using True by simp
    ultimately show ?thesis
      using True send
      by (subst genericRequest.simps) (simp add: RequestsManager_MAX_RETRY_COUNT_def)
  next
    case False
    with "1.prems" have "retryCount = 3" by simp
    then show ?thesis
      using send by (subst genericRequest.simps) (simp add: RequestsManager_MAX_RETRY_COUNT_def)
  qed
qed

lemma get_request_exchanges [simp]:
  "get_request (s\<lparr>exchanges := x\<rparr>) ep hs dt js = get_request s ep hs dt js"
  by (simp add: get_request_def make_url_def)

lemma post_request_exchanges [simp]:
  "post_request (s\<lparr>exchanges := x\<rparr>) ep hs dt js = post_request s ep hs dt js"
  by (simp add: post_request_def make_url_def)

lemma get_raises_from:
  assumes "\<forall>h. srv h (get_request s ep hs dt js) = Raises"
  shows "rc \<le> 3 \<Longrightarrow> get srv ep hs dt js rc s =
           (Inl RequestFailedError,
            s\<lparr>exchanges := exchanges s @ replicate (nat (4 - rc)) (get_request s ep hs dt js, Raises)\<rparr>)"
  using assms
proof (induction srv ep hs dt js rc s rule: get.induct)
  case (1 srv endpoint headers dat jsonObject retryCount s)
  let ?req = "get_request s endpoint headers dat jsonObject"
  let ?s1 = "s\<lparr>exchanges := exchanges s @ [(?req, Raises)]\<rparr>"
  have send: "session_send srv ?req s = (Raises, ?s1)"
    using "1.prems" by (simp add: session_send_def)
  show ?case
  proof (cases "retryCount < 3")
    case True
    have "get srv endpoint headers dat jsonObject (retryCount + 1) ?s1 =
            (Inl RequestFailedError,
             ?s1\<lparr>exchanges := exchanges ?s1 @ replicate (nat (4 - (retryCount + 1))) (?req, Raises)\<rparr>)"
      using "1.IH"[OF send[symmetric] refl] True "1.prems"
      by (simp add: RequestsManager_MAX_RETRY_COUNT_def)
    moreover have "nat (4 - retryCount) = Suc (nat (4 - (retryCount + 1)))"
      using True by simp
    ultimately show ?thesis
      using True send
      by (subst get.simps) (simp add: RequestsManager_MAX_RETRY_COUNT_def)
  next
    case False
    with "1.prems" have "retryCount = 3" by simp
    then show ?thesis
      using send by (subst get.simps) (simp add: RequestsManager_MAX_RETRY_COUNT_def)
  qed
qed

lemma post_raises_from:
  assumes "\<forall>h. srv h (post_request s ep hs dt js) = Raises"
  shows "rc \<le> 3 \<Longrightarrow> post srv ep hs dt js rc s =
           (Inl RequestFailedError,
            s\<lparr>exchanges := exchanges s @ replicate (nat (4 - rc)) (post_request s ep hs dt js, Raises)\<rparr>)"
  using assms
proof (induction srv ep hs dt js rc s rule: post.induct)
  case (1 srv endpoint headers dat jsonObject retryCount s)
  let ?req = "post_request s endpoint headers dat jsonObject"
  let ?s1 = "s\<lparr>exchanges := exchanges s @ [(?req, Raises)]\<rparr>"
  have send: "session_send srv ?req s = (Raises, ?s1)"
    using "1.prems" by (simp add: session_send_def)
  show ?case
  proof (cases "retryCount < 3")
    case True
    have "post srv endpoint headers dat jsonObject (retryCount + 1) ?s1 =
            (Inl RequestFailedError,
             ?s1\<lparr>exchanges := exchanges ?s1 @ replicate (nat (4 - (retryCount + 1))) (?req, Raises)\<rparr>)"
      using "1.IH"[OF send[symmetric] refl] True "1.prems"
      by (simp add: RequestsManager_MAX_RETRY_COUNT_def)
    moreover have "nat (4 - retryCount) = Suc (nat (4 - (retryCount + 1)))"
      using True by simp
    ultimately show ?thesis
      using True send
      by (subst post.simps) (simp add: RequestsManager_MAX_RETRY_COUNT_def)
  next
    case False
    with "1.prems" have "retryCount = 3" by simp
    then show ?thesis
      using send by (subst post.simps) (simp add: RequestsManager_MAX_RETRY_COUNT_def)
  qed
qed

lemma session_send_eq:
  "session_send srv req s = (srv (exchanges s) req, s\<lparr>exchanges := exchanges s @ [(req, srv (exchanges s) req)]\<rparr>)"
  by (simp add: session_send_def Let_def)

lemma genericRequest_shape:
  "genericRequest srv rt ep hs dt fl rc s = (res, s') \<Longrightarrow>
     \<exists>n. s' = s\<lparr>exchanges := exchanges s @
                 replicate n (genericRequest_request s rt ep hs dt fl, Raises) @
                 [(genericRequest_request s rt ep hs dt fl, outcome_reply res)]\<rparr>
       \<and> (res = Inl RequestFailedError \<or> (\<exists>r. res = Inr r))
       \<and> (rc \<le> 3 \<longrightarrow> n \<le> nat (3 - rc) \<and> (res = Inl RequestFailedError \<longrightarrow> n = nat (3 - rc)))"
proof (induction srv rt ep hs dt fl rc s arbitrary: res s' rule: genericRequest.induct)
  case (1 srv requestType endpoint headers dat fls retryCount s)
  let ?req = "genericRequest_request s requestType endpoint headers dat fls"
  let ?rep = "srv (exchanges s) ?req"
  let ?s1 = "s\<lparr>exchanges := exchanges s @ [(?req, ?rep)]\<rparr>"
  have send: "session_send srv ?req s = (?rep, ?s1)"
    by (rule session_send_eq)
  show ?case
  proof (cases ?rep)
    case (Responds r)
    then have "res = Inr r" "s' = ?s1"
      using "1.prems" send by (subst (asm) genericRequest.simps, simp)+
    then show ?thesis
      using Responds by (intro exI[of _ 0]) (simp add: outcome_reply_def)
  next
    case Raises
    show ?thesis
    proof (cases "retryCount < 3")
      case True
      have rec: "genericRequest srv requestType endpoint headers dat fls (retryCount + 1) ?s1 = (res, s')"
        using "1.prems" send Raises True
        by (subst (asm) genericRequest.simps) (simp add: RequestsManager_MAX_RETRY_COUNT_def)
      have lt: "retryCount < RequestsManager_MAX_RETRY_COUNT"
        using True by (simp add: RequestsManager_MAX_RETRY_COUNT_def)
      obtain n where n: "s' = ?s1\<lparr>exchanges := exchanges ?s1 @ replicate n (?req, Raises) @
                                  [(?req, outcome_reply res)]\<rparr>"
          "res = Inl RequestFailedError \<or> (\<exists>r. res = Inr r)"
          "retryCount + 1 \<le> 3 \<longrightarrow> n \<le> nat (3 - (retryCount + 1)) \<and>
             (res = Inl RequestFailedError \<longrightarrow> n = nat (3 - (retryCount + 1)))"
        using "1.IH"[OF send[symmetric] Raises lt rec] Raises by auto
      show ?thesis
        using n True Raises by (intro exI[of _ "Suc n"]) auto
    next
      case False
      then have "res = Inl RequestFailedError" "s' = ?s1"
        using "1.prems" send Raises
        by (subst (asm) genericRequest.simps, simp add: RequestsManager_MAX_RETRY_COUNT_def)+
      then show ?thesis
        using Raises False by (intro exI[of _ 0]) (auto simp: outcome_reply_def)
    qed
  qed
qed

lemma get_shape:
  "get srv ep hs dt js rc s = (res, s') \<Longrightarrow>
     \<exists>n. s' = s\<lparr>exchanges := exchanges s @
                 replicate n (get_request s ep hs dt js, Raises) @
                 [(get_request s ep hs dt js, outcome_reply res)]\<rparr>
       \<and> (res = Inl RequestFailedError \<or> (\<exists>r. res = Inr r))
       \<and> (rc \<le> 3 \<longrightarrow> n \<le> nat (3 - rc) \<and> (res = Inl RequestFailedError \<longrightarrow> n = nat (3 - rc)))"
proof (induction srv ep hs dt js rc s arbitrary: res s' rule: get.induct)
  case (1 srv endpoint headers dat jsonObject retryCount s)
  let ?req = "get_request s endpoint headers dat jsonObject"
  let ?rep = "srv (exchanges s) ?req"
  let ?s1 = "s\<lparr>exchanges := exchanges s @ [(?req, ?rep)]\<rparr>"
  have send: "session_send srv ?req s = (?rep, ?s1)"
    by (rule session_send_eq)
  show ?case
  proof (cases ?rep)
    case (Responds r)
    then have "res = Inr r" "s' = ?s1"
      using "1.prems" send by (subst (asm) get.simps, simp)+
    then show ?thesis
      using Responds by (intro exI[of _ 0]) (simp add: outcome_reply_def)
  next
    case Raises
    show ?thesis
    proof (cases "retryCount < 3")
      case True
      have rec: "get srv endpoint headers dat jsonObject (retryCount + 1) ?s1 = (res, s')"
        using "1.prems" send Raises True
        by (subst (asm) get.simps) (simp add: RequestsManager_MAX_RETRY_COUNT_def)
      have lt: "retryCount < RequestsManager_MAX_RETRY_COUNT"
        using True by (simp add: RequestsManager_MAX_RETRY_COUNT_def)
      obtain n where n: "s' = ?s1\<lparr>exchanges := exchanges ?s1 @ replicate n (?req, Raises) @
                                  [(?req, outcome_reply res)]\<rparr>"
          "res = Inl RequestFailedError \<or> (\<exists>r. res = Inr r)"
          "retryCount + 1 \<le> 3 \<longrightarrow> n \<le> nat (3 - (retryCount + 1)) \<and>
             (res = Inl RequestFailedError \<longrightarrow> n = nat (3 - (retryCount + 1)))"
        using "1.IH"[OF send[symmetric] Raises lt rec] Raises by auto
      show ?thesis
        using n True Raises by (intro exI[of _ "Suc n"]) auto
    next
      case False
      then have "res = Inl RequestFailedError" "s' = ?s1"
        using "1.prems" send Raises
        by (subst (asm) get.simps, simp add: RequestsManager_MAX_RETRY_COUNT_def)+
      then show ?thesis
        using Raises False by (intro exI[of _ 0]) (auto simp: outcome_reply_def)
    qed
  qed
qed

text \<open>
  C4. When the session raises on every attempt, \<open>genericRequest\<close>, \<open>get\<close> and \<open>post\<close>,
  called with the default \<open>retryCount = 0\<close>, send the same request exactly four times and
  end with \<open>RequestFailedError\<close>; the state changes by those four recorded attempts only.
\<close>

theorem transport_four_attempts_then_RequestFailedError:
  assumes "\<forall>h r. srv h r = Raises"
  shows "genericRequest srv requestType endpoint headers dat fls 0 s =
           (Inl RequestFailedError,
            s\<lparr>exchanges := exchanges s @
                 replicate 4 (genericRequest_request s requestType endpoint headers dat fls, Raises)\<rparr>)
       \<and> get srv endpoint headers dat jsonObject 0 s =
           (Inl RequestFailedError,
            s\<lparr>exchanges := exchanges s @
                 replicate 4 (get_request s endpoint headers dat jsonObject, Raises)\<rparr>)
       \<and> post srv endpoint headers dat jsonObject 0 s =
           (Inl RequestFailedError,
            s\<lparr>exchanges := exchanges s @
                 replicate 4 (post_request s endpoint headers dat jsonObject, Raises)\<rparr>)"
proof -
  have all: "\<And>req. \<forall>h. srv h req = Raises"
    using assms by simp
  have "nat (4 - 0) = (4::nat)" by simp
  then show ?thesis
    using genericRequest_raises_from[OF all, where rc = 0 and s = s and rt = requestType
          and ep = endpoint and hs = headers and dt = dat and fl = fls]
      get_raises_from[OF all, where rc = 0 and s = s and ep = endpoint and hs = headers
          and dt = dat and js = jsonObject]
      post_raises_from[OF all, where rc = 0 and s = s and ep = endpoint and hs = headers
          and dt = dat and js = jsonObject]
    by simp
qed

theorem transport_four_attempts_witness:
  "length (exchanges (snd (genericRequest dead_server RequestType_post ''user/login'' None NoData None 0
                             sample_client))) = 4
   \<and> fst (genericRequest dead_server RequestType_post ''user/login'' None NoData None 0 sample_client)
       = Inl RequestFailedError
   \<and> length (exchanges (snd (get dead_server ''file'' None NoData None 0 sample_client))) = 4
   \<and> fst (get dead_server ''file'' None NoData None 0 sample_client) = Inl RequestFailedError
   \<and> length (exchanges (snd (post dead_server ''user/login'' None NoData None 0 sample_client))) = 4
   \<and> fst (post dead_server ''user/login'' None NoData None 0 sample_client) = Inl RequestFailedError"
proof -
  have dead: "\<forall>h r. dead_server h r = Raises"
    by (simp add: dead_server_def)
  show ?thesis
    using transport_four_attempts_then_RequestFailedError[OF dead,
        where requestType = RequestType_post and endpoint = "''user/login''" and headers = None
          and dat = NoData and fls = None and s = sample_client and jsonObject = None]
      transport_four_attempts_then_RequestFailedError[OF dead,
        where requestType = RequestType_post and endpoint = "''file''" and headers = None
          and dat = NoData and fls = None and s = sample_client and jsonObject = None]
    by (simp add: sample_client_def)
qed

section \<open>ChunkUploadSession: validation of the chunk size\<close>

text \<open>
  C7. Construction raises \<open>ValueError\<close> exactly when \<open>chunkSize \<le> 0\<close> or
  \<open>chunkSize > 134217728\<close>. A chunk size in \<open>[1, 134217728]\<close> is accepted: with a mime
  type at hand and a file at the path, the session is built and records that chunk size.
\<close>

theorem ChunkUploadSession_init_ValueError_iff:
  "(ChunkUploadSession_init guessMimeType c p m s = Inl ValueError) = (c \<le> 0 \<or> c > 134217728)
   \<and> (1 \<le> c \<and> c \<le> 134217728 \<and> m = Some mt \<and> p \<noteq> [] \<and> fs s p = Some (File content) \<longrightarrow>
        ChunkUploadSession_init guessMimeType c p m s =
          Inr \<lparr>chunkSize = c, filePath = p, fileSize = int (length content), mimeType = mt\<rparr>)"
  by (auto simp: ChunkUploadSession_init_def MAX_CHUNK_SIZE_def lstat_st_size_def node_at_def
      split: option.splits sum.splits node.splits)

theorem ChunkUploadSession_init_boundary_witness:
  "ChunkUploadSession_init (\<lambda>p. None) 134217728 [''f''] (Some ''text/plain'')
       (sample_client\<lparr>fs := Map.empty([''f''] \<mapsto> File [1, 2, 3])\<rparr>) =
     Inr \<lparr>chunkSize = 134217728, filePath = [''f''], fileSize = 3, mimeType = ''text/plain''\<rparr>
   \<and> ChunkUploadSession_init (\<lambda>p. None) 134217729 [''f''] (Some ''text/plain'')
       (sample_client\<lparr>fs := Map.empty([''f''] \<mapsto> File [1, 2, 3])\<rparr>) = Inl ValueError
   \<and> ChunkUploadSession_init (\<lambda>p. None) 0 [''f''] (Some ''text/plain'')
       (sample_client\<lparr>fs := Map.empty([''f''] \<mapsto> File [1, 2, 3])\<rparr>) = Inl ValueError"
  using ChunkUploadSession_init_ValueError_iff[where guessMimeType = "\<lambda>p. None" and c = 134217728
          and p = "[''f'']" and m = "Some ''text/plain''" and mt = "''text/plain''"
          and content = "[1, 2, 3]"
          and s = "sample_client\<lparr>fs := Map.empty([''f''] \<mapsto> File [1, 2, 3])\<rparr>"]
        ChunkUploadSession_init_ValueError_iff[where guessMimeType = "\<lambda>p. None" and c = 134217729
          and p = "[''f'']" and m = "Some ''text/plain''"
          and s = "sample_client\<lparr>fs := Map.empty([''f''] \<mapsto> File [1, 2, 3])\<rparr>"]
        ChunkUploadSession_init_ValueError_iff[where guessMimeType = "\<lambda>p. None" and c = 0
          and p = "[''f'']" and m = "Some ''text/plain''"
          and s = "sample_client\<lparr>fs := Map.empty([''f''] \<mapsto> File [1, 2, 3])\<rparr>"]
  by (simp add: sample_client_def)

section \<open>The retry policy: shouldRetry\<close>

lemma refreshToken_shape:
  assumes "refreshToken srv s = (res, s')"
  shows "\<exists>n tok. n \<le> 3 \<and>
           s' = s\<lparr>priv_apiToken := tok,
                  exchanges := exchanges s @ replicate n (refreshToken_request s, Raises) @
                                 [(refreshToken_request s, outcome_reply res)]\<rparr>
         \<and> (res = Inl RequestFailedError \<and> n = 3 \<and> tok = priv_apiToken s
            \<or> (\<exists>r. res = Inr r \<and>
                 tok = (case map_of (json_of r) apiTokenKey of
                          Some t \<Rightarrow> t | None \<Rightarrow> priv_apiToken s)))"
proof -
  let ?hs = "Some (if priv_refreshToken s \<noteq> PyNone
              then AList.update apiTokenHeaderField (priv_refreshToken s) (requestHeader s)
              else requestHeader s)"
  obtain res1 s1 where g: "genericRequest srv RequestType_post refreshEndpoint ?hs NoData None 0 s = (res1, s1)"
    by (cases "genericRequest srv RequestType_post refreshEndpoint ?hs NoData None 0 s") auto
  from genericRequest_shape[OF g] obtain n where n:
    "s1 = s\<lparr>exchanges := exchanges s @ replicate n (refreshToken_request s, Raises) @
                 [(refreshToken_request s, outcome_reply res1)]\<rparr>"
    "res1 = Inl RequestFailedError \<or> (\<exists>r. res1 = Inr r)"
    "n \<le> 3" "res1 = Inl RequestFailedError \<longrightarrow> n = 3"
    by (auto simp: refreshToken_request_def)
  from n(2) show ?thesis
  proof
    assume e: "res1 = Inl RequestFailedError"
    then have "res = Inl RequestFailedError" "s' = s1"
      using assms g by (simp_all add: refreshToken_def Let_def)
    then show ?thesis
      using n e by (intro exI[of _ n] exI[of _ "priv_apiToken s"]) simp
  next
    assume "\<exists>r. res1 = Inr r"
    then obtain r where r: "res1 = Inr r" ..
    show ?thesis
    proof (cases "map_of (json_of r) apiTokenKey")
      case None
      then have "res = Inr r" "s' = s1"
        using assms g r by (simp_all add: refreshToken_def Let_def)
      then show ?thesis
        using n r None by (intro exI[of _ n] exI[of _ "priv_apiToken s"]) simp
    next
      case (Some t)
      then have "res = Inr r" "s' = s1\<lparr>priv_apiToken := t\<rparr>"
        using assms g r by (simp_all add: refreshToken_def Let_def)
      then show ?thesis
        using n r Some by (intro exI[of _ n] exI[of _ t]) simp
    qed
  qed
qed

lemma shouldRetry_at_bound: "shouldRetry srv 3 response s = (Inr False, s)"
  by (simp add: shouldRetry_def NetworkManagerBase_MAX_RETRY_COUNT_def)




text \<open>
  C2. The stop test is an equality with 3. Above the bound it does not hold: at
  \<open>retryCount = 4\<close> a 500 response is answered with true (retry), whatever the server and
  the state.
\<close>

theorem shouldRetry_above_bound_retries:
  "shouldRetry srv 4 \<lparr>statusCode = 500, rawBody = b, parsedJSON = j\<rparr> s = (Inr True, s)"
  by (simp add: shouldRetry_def NetworkManagerBase_MAX_RETRY_COUNT_def isUnauthorized_def
       HttpCode_unauthorized_def HttpCode_internalServerError_def)

text \<open>
  A consequence: started above the bound against a server that keeps answering 500,
  \<open>genericJSONRequest\<close> never returns.
\<close>

lemma genericRequest_responds:
  "srv (exchanges s) (genericRequest_request s rt ep hs dt fl) = Responds r \<Longrightarrow>
   genericRequest srv rt ep hs dt fl rc s =
     (Inr r, s\<lparr>exchanges := exchanges s @ [(genericRequest_request s rt ep hs dt fl, Responds r)]\<rparr>)"
  by (subst genericRequest.simps) (simp add: session_send_eq)

lemma shouldRetry_500_off_bound:
  "rc \<noteq> 3 \<Longrightarrow> statusCode r = 500 \<Longrightarrow> shouldRetry srv rc r s = (Inr True, s)"
  by (simp add: shouldRetry_def NetworkManagerBase_MAX_RETRY_COUNT_def isUnauthorized_def
      HttpCode_unauthorized_def HttpCode_internalServerError_def)

lemma genericJSONRequest_above_bound_never_returns:
  "3 < rc \<Longrightarrow> genericJSONRequest failing_server ep rt ps hs rc s = None"
proof (rule ccontr)
  assume rc: "3 < rc" and "genericJSONRequest failing_server ep rt ps hs rc s \<noteq> None"
  then obtain y where y: "genericJSONRequest failing_server ep rt ps hs rc s = Some y"
    by auto
  have "\<not> (srv = failing_server \<and> 3 < rc)"
    if "genericJSONRequest srv ep rt ps hs rc s = Some y" for srv
    using that
  proof (induction srv ep rt ps hs rc s y rule: genericJSONRequest_induct)
    case (step f srv endpoint requestType parameters headers retryCount s y)
    show ?case
    proof
      assume a: "srv = failing_server \<and> 3 < retryCount"
      let ?r = "\<lparr>statusCode = 500, rawBody = [], parsedJSON = None\<rparr>"
      have "f srv endpoint requestType
              (Some (case parameters of None \<Rightarrow> [] | Some p \<Rightarrow> p))
              (Some (case headers of None \<Rightarrow> requestHeader s | Some h \<Rightarrow> h)) (retryCount + 1)
              (s\<lparr>exchanges := exchanges s @
                   [(genericRequest_request s requestType endpoint
                       (Some (case headers of None \<Rightarrow> requestHeader s | Some h \<Rightarrow> h))
                       (JsonDumps (case parameters of None \<Rightarrow> [] | Some p \<Rightarrow> p)) None,
                     Responds ?r)]\<rparr>) = Some y"
        using step.hyps a
        by (simp add: Let_def genericRequest_responds failing_server_def shouldRetry_500_off_bound)
      from step.IH[OF this] a show False by simp
    qed
  qed
  from this[OF y] rc show False by simp
qed


section \<open>The retrying operations return, and what they leave untouched\<close>

lemma genericJSONRequest_returns:
  "rc \<le> 3 \<Longrightarrow> genericJSONRequest srv ep rt ps hs rc s \<noteq> None"
proof (induction "nat (3 - rc)" arbitrary: rc ps hs s)
  case 0
  then have "rc = 3" by simp
  then show ?case
    by (subst genericJSONRequest.simps)
       (simp add: Let_def shouldRetry_at_bound split: prod.splits sum.splits)
next
  case (Suc n)
  have IH: "\<And>ps hs s. \<exists>a b. genericJSONRequest srv ep rt ps hs (rc + 1) s = Some (a, b)"
    using Suc.hyps(1)[of "rc + 1"] Suc.hyps(2) Suc.prems by auto
  show ?case
    by (subst genericJSONRequest.simps)
       (simp add: Let_def IH split: prod.splits sum.splits)
qed


lemma genericDownload_returns:
  "rc \<le> 3 \<Longrightarrow> genericDownload srv ep dest ps rc s \<noteq> None"
proof (induction "nat (3 - rc)" arbitrary: rc ps s)
  case 0
  then have "rc = 3" by simp
  then show ?case
    by (subst genericDownload.simps)
       (simp add: Let_def shouldRetry_at_bound split: prod.splits sum.splits)
next
  case (Suc n)
  have IH: "\<And>ps s. \<exists>a b. genericDownload srv ep dest ps (rc + 1) s = Some (a, b)"
    using Suc.hyps(1)[of "rc + 1"] Suc.hyps(2) Suc.prems by auto
  show ?case
    by (subst genericDownload.simps)
       (simp add: Let_def IH split: prod.splits sum.splits)
qed

lemma genericRequest_frame:
  assumes "genericRequest srv rt ep hs dt fl rc s = (res, s')"
  shows "\<exists>new. exchanges s' = exchanges s @ new \<and> new \<noteq> []
           \<and> (\<forall>x\<in>set new. fst x = genericRequest_request s rt ep hs dt fl)
           \<and> snd (last new) = outcome_reply res
           \<and> baseURL s' = baseURL s \<and> fs s' = fs s
           \<and> (res = Inl RequestFailedError \<or> (\<exists>r. res = Inr r))"
proof -
  from genericRequest_shape[OF assms] obtain n where n:
    "s' = s\<lparr>exchanges := exchanges s @
                 replicate n (genericRequest_request s rt ep hs dt fl, Raises) @
                 [(genericRequest_request s rt ep hs dt fl, outcome_reply res)]\<rparr>"
    "res = Inl RequestFailedError \<or> (\<exists>r. res = Inr r)"
    by blast
  show ?thesis
    by (rule exI[of _ "replicate n (genericRequest_request s rt ep hs dt fl, Raises) @
                 [(genericRequest_request s rt ep hs dt fl, outcome_reply res)]"])
       (use n in auto)
qed

lemma get_frame:
  assumes "get srv ep hs dt js rc s = (res, s')"
  shows "\<exists>new. exchanges s' = exchanges s @ new \<and> new \<noteq> []
           \<and> (\<forall>x\<in>set new. fst x = get_request s ep hs dt js)
           \<and> snd (last new) = outcome_reply res
           \<and> baseURL s' = baseURL s \<and> fs s' = fs s
           \<and> (res = Inl RequestFailedError \<or> (\<exists>r. res = Inr r))"
proof -
  from get_shape[OF assms] obtain n where n:
    "s' = s\<lparr>exchanges := exchanges s @
                 replicate n (get_request s ep hs dt js, Raises) @
                 [(get_request s ep hs dt js, outcome_reply res)]\<rparr>"
    "res = Inl RequestFailedError \<or> (\<exists>r. res = Inr r)"
    by blast
  show ?thesis
    by (rule exI[of _ "replicate n (get_request s ep hs dt js, Raises) @
                 [(get_request s ep hs dt js, outcome_reply res)]"])
       (use n in auto)
qed

lemma shouldRetry_frame:
  assumes "shouldRetry srv rc response s = (res, s')"
  shows "\<exists>new. exchanges s' = exchanges s @ new
           \<and> (\<forall>x\<in>set new. fst x = refreshToken_request s)
           \<and> baseURL s' = baseURL s \<and> fs s' = fs s
           \<and> (case res of
                 Inl e \<Rightarrow> e = RequestFailedError \<and> new \<noteq> [] \<and> snd (last new) = Raises
               | Inr again \<Rightarrow>
                   if again then rc \<noteq> 3
                   else new = [] \<and> s' = s \<and> (rc = 3 \<or> \<not> isUnauthorized response)
                        \<or> (isUnauthorized response \<and> new \<noteq> [] \<and>
                            (\<exists>rr. snd (last new) = Responds rr \<and> \<not> ok rr)))"
proof (cases "rc = 3")
  case True
  then show ?thesis
    using assms by (intro exI[of _ "[]"]) (auto simp: shouldRetry_at_bound)
next
  case False
  show ?thesis
  proof (cases "isUnauthorized response")
    case u: False
    then show ?thesis
      using assms False
      by (auto simp: shouldRetry_def NetworkManagerBase_MAX_RETRY_COUNT_def)
  next
    case u: True
    obtain r1 s1 where rt: "refreshToken srv s = (r1, s1)"
      by (cases "refreshToken srv s") auto
    from refreshToken_shape[OF rt] obtain n tok where sh:
      "s1 = s\<lparr>priv_apiToken := tok,
            exchanges := exchanges s @ replicate n (refreshToken_request s, Raises) @
                           [(refreshToken_request s, outcome_reply r1)]\<rparr>"
      "r1 = Inl RequestFailedError \<or> (\<exists>r. r1 = Inr r)"
      by blast
    have sr: "(res, s') = (case r1 of Inl e \<Rightarrow> (Inl e, s1) | Inr r \<Rightarrow> (Inr (\<not> hasFailed r), s1))"
      using assms rt u False
      by (simp add: shouldRetry_def NetworkManagerBase_MAX_RETRY_COUNT_def split: sum.splits)
    show ?thesis
      by (rule exI[of _ "replicate n (refreshToken_request s, Raises) @
                           [(refreshToken_request s, outcome_reply r1)]"])
         (use sh sr u False in \<open>auto simp: outcome_reply_def hasFailed_def\<close>)
  qed
qed

lemma refreshToken_request_url [simp]:
  "req_url (refreshToken_request s) = make_url s refreshEndpoint"
  by (simp add: refreshToken_request_def genericRequest_request_def)

lemma genericRequest_request_sel [simp]:
  "req_url (genericRequest_request s rt ep hs dt fl) = make_url s ep"
  "req_data (genericRequest_request s rt ep hs dt fl) = dt"
  "req_headers (genericRequest_request s rt ep hs dt fl) = hs"
  by (simp_all add: genericRequest_request_def)

lemma make_url_cong: "baseURL s' = baseURL s \<Longrightarrow> make_url s' ep = make_url s ep"
  by (simp add: make_url_def)

lemma genericJSONRequest_exchanges:
  assumes "genericJSONRequest srv ep rt ps hs rc s = Some y"
  shows "\<exists>new. exchanges (snd y) = exchanges s @ new \<and> new \<noteq> []
           \<and> baseURL (snd y) = baseURL s \<and> fs (snd y) = fs s
           \<and> fst (hd new) =
               genericRequest_request s rt ep
                 (Some (case hs of None \<Rightarrow> requestHeader s | Some h \<Rightarrow> h))
                 (JsonDumps (case ps of None \<Rightarrow> [] | Some p \<Rightarrow> p)) None
           \<and> (\<forall>x\<in>set new. req_url (fst x) = make_url s ep
                            \<or> req_url (fst x) = make_url s refreshEndpoint)"
  using assms
proof (induction srv ep rt ps hs rc s y rule: genericJSONRequest_induct)
  case (step f srv endpoint requestType parameters headers retryCount s y)
  let ?hs = "case headers of None \<Rightarrow> requestHeader s | Some h \<Rightarrow> h"
  let ?ps = "case parameters of None \<Rightarrow> [] | Some p \<Rightarrow> p"
  let ?req = "genericRequest_request s requestType endpoint (Some ?hs) (JsonDumps ?ps) None"
  obtain r1 s1 where g: "genericRequest srv requestType endpoint (Some ?hs) (JsonDumps ?ps) None 0 s = (r1, s1)"
    by (cases "genericRequest srv requestType endpoint (Some ?hs) (JsonDumps ?ps) None 0 s") auto
  from genericRequest_frame[OF g] obtain new1 where n1:
    "exchanges s1 = exchanges s @ new1" "new1 \<noteq> []" "\<forall>x\<in>set new1. fst x = ?req"
    "baseURL s1 = baseURL s" "fs s1 = fs s" "r1 = Inl RequestFailedError \<or> (\<exists>r. r1 = Inr r)"
    by blast
  have hd1: "fst (hd new1) = ?req"
    using n1(2,3) by (cases new1) auto
  from n1(6) show ?case
  proof
    assume "r1 = Inl RequestFailedError"
    then have "y = (Inl RequestFailedError, s1)"
      using step.hyps g by (simp add: Let_def)
    then show ?thesis
      using n1 hd1 by (intro exI[of _ new1]) auto
  next
    assume "\<exists>r. r1 = Inr r"
    then obtain nr where nr: "r1 = Inr nr" ..
    obtain r2 s2 where sr: "shouldRetry srv retryCount nr s1 = (r2, s2)"
      by (cases "shouldRetry srv retryCount nr s1") auto
    from shouldRetry_frame[OF sr] obtain new2 where n2:
      "exchanges s2 = exchanges s1 @ new2" "\<forall>x\<in>set new2. fst x = refreshToken_request s1"
      "baseURL s2 = baseURL s1" "fs s2 = fs s1"
      by blast
    have u2: "\<forall>x\<in>set new2. req_url (fst x) = make_url s refreshEndpoint"
      using n2(2) n1(4) by (simp add: make_url_def)
    show ?thesis
    proof (cases r2)
      case (Inl e)
      then have "y = (Inl e, s2)"
        using step.hyps g nr sr by (simp add: Let_def)
      then show ?thesis
        using n1 n2 hd1 u2 by (intro exI[of _ "new1 @ new2"]) auto
    next
      case (Inr again)
      show ?thesis
      proof (cases again)
        case False
        then have "y = (Inr nr, s2)"
          using step.hyps g nr sr Inr by (simp add: Let_def)
        then show ?thesis
          using n1 n2 hd1 u2 by (intro exI[of _ "new1 @ new2"]) auto
      next
        case True
        then have "f srv endpoint requestType (Some ?ps) (Some ?hs) (retryCount + 1) s2 = Some y"
          using step.hyps g nr sr Inr by (simp add: Let_def)
        from step.IH[OF this] obtain new3 where n3:
          "exchanges (snd y) = exchanges s2 @ new3" "baseURL (snd y) = baseURL s2"
          "fs (snd y) = fs s2"
          "\<forall>x\<in>set new3. req_url (fst x) = make_url s2 endpoint
                            \<or> req_url (fst x) = make_url s2 refreshEndpoint"
          by auto
        have u3: "\<forall>x\<in>set new3. req_url (fst x) = make_url s endpoint
                            \<or> req_url (fst x) = make_url s refreshEndpoint"
          using n3(4) n2(3) n1(4) by (simp add: make_url_def)
        show ?thesis
          using n1 n2 n3(1,2,3) hd1 u2 u3 by (intro exI[of _ "new1 @ new2 @ new3"]) auto
      qed
    qed
  qed
qed

section \<open>The generic operations and the retry policy\<close>

text \<open>
  C1. With an expired token \<open>old\<close>, a working refresh and no headers passed,
  \<open>genericJSONRequest\<close> hands the header dictionary it built before the refresh to its own
  retry: each of the three re-issued requests carries \<open>old\<close> again although the state holds
  \<open>new\<close>, and the call ends with the 401. \<open>genericUpload\<close>, which builds its headers in every
  call, re-issues once with \<open>new\<close> and succeeds.
\<close>

theorem genericJSONRequest_retry_carries_stale_token:
  "map_option (\<lambda>(res, s). (res, exchange_summary s, priv_apiToken s))
     (genericJSONRequest renewing_server ''upload/start'' RequestType_post None None 0 sample_client) =
     Some (Inr unauthorized_response,
           [(''upload/start'', Some (PyStr ''old''), Some 401),
            (''user/refresh'', Some (PyStr ''r''), Some 200),
            (''upload/start'', Some (PyStr ''old''), Some 401),
            (''user/refresh'', Some (PyStr ''r''), Some 200),
            (''upload/start'', Some (PyStr ''old''), Some 401),
            (''user/refresh'', Some (PyStr ''r''), Some 200),
            (''upload/start'', Some (PyStr ''old''), Some 401)],
           PyStr ''new'')
   \<and> map_option (\<lambda>(res, s). (map_sum id statusCode res, exchange_summary s, priv_apiToken s))
     (genericUpload renewing_server ''upload/chunk'' [] None 0 sample_client) =
     Some (Inr 200,
           [(''upload/chunk'', Some (PyStr ''old''), Some 401),
            (''user/refresh'', Some (PyStr ''r''), Some 200),
            (''upload/chunk'', Some (PyStr ''new''), Some 200)],
           PyStr ''new'')"
  by code_simp

text \<open>
  C6. \<open>genericDelete\<close> is a single transport call: it never consults \<open>shouldRetry\<close>. On the
  server whose tokens expire it returns the 401 after one attempt and leaves the token as
  it was; on the server that answers 500 it returns the 500 after one attempt, where
  \<open>genericJSONRequest\<close> sends four.
\<close>

theorem genericDelete_does_not_retry:
  "map_prod id (\<lambda>s. (exchange_summary s, priv_apiToken s))
     (genericDelete renewing_server ''dataset/1'' sample_client) =
     (Inr unauthorized_response, [(''dataset/1'', Some (PyStr ''old''), Some 401)], PyStr ''old'')
   \<and> map_prod (map_sum id statusCode) exchange_summary
     (genericDelete failing_server ''dataset/1'' sample_client) =
     (Inr 500, [(''dataset/1'', Some (PyStr ''old''), Some 500)])
   \<and> map_option (\<lambda>(res, s). (map_sum id statusCode res, exchange_summary s))
     (genericJSONRequest failing_server ''dataset/1'' RequestType_delete None None 0 sample_client) =
     Some (Inr 500,
           [(''dataset/1'', Some (PyStr ''old''), Some 500),
            (''dataset/1'', Some (PyStr ''old''), Some 500),
            (''dataset/1'', Some (PyStr ''old''), Some 500),
            (''dataset/1'', Some (PyStr ''old''), Some 500)])"
  by code_simp

section \<open>ChunkUploadSession.run\<close>

lemma run_empty_eq_start:
  assumes "fileSize self = 0" and "0 < chunkSize self"
  shows "ChunkUploadSession_run srv self s = ChunkUploadSession_start srv self s"
  using assms
  by (simp add: ChunkUploadSession_run_def py_range_def split: option.splits prod.splits sum.splits)

text \<open>
  C9. A session whose recorded file size is 0 still sends the start request, with size 0.
  \<open>run\<close> returns; when the start call comes back with a response that has not failed and
  carries a string id, \<open>run\<close> returns that id in the very state the start call left; and
  whatever the outcome, no attempt recorded during \<open>run\<close> goes to \<open>upload/chunk\<close>.
\<close>

theorem run_on_empty_file:
  assumes "fileSize self = 0" and "0 < chunkSize self"
  shows "(\<exists>out. ChunkUploadSession_run srv self s = Some out)
     \<and> (\<forall>response s1 uploadId.
           genericJSONRequest srv ''upload/start'' RequestType_post (Some [(''size'', PyInt 0)]) None 0 s
             = Some (Inr response, s1)
           \<and> \<not> hasFailed response \<and> map_of (json_of response) ''id'' = Some (PyStr uploadId)
           \<longrightarrow> ChunkUploadSession_run srv self s = Some (Inr uploadId, s1))
     \<and> (\<forall>res s'. ChunkUploadSession_run srv self s = Some (res, s') \<longrightarrow>
           (\<exists>new. exchanges s' = exchanges s @ new \<and> new \<noteq> []
              \<and> fst (hd new) =
                  genericRequest_request s RequestType_post ''upload/start'' (Some (requestHeader s))
                    (JsonDumps [(''size'', PyInt 0)]) None
              \<and> (\<forall>x\<in>set new. req_url (fst x) \<noteq> make_url s ''upload/chunk'')))"
proof (intro conjI allI impI)
  have eq: "ChunkUploadSession_run srv self s = ChunkUploadSession_start srv self s"
    by (rule run_empty_eq_start[OF assms])
  let ?j = "genericJSONRequest srv ''upload/start'' RequestType_post (Some [(''size'', PyInt 0)]) None 0 s"
  have ret: "?j \<noteq> None"
    by (rule genericJSONRequest_returns) simp
  show "\<exists>out. ChunkUploadSession_run srv self s = Some out"
    using ret assms(1)
    by (auto simp: eq ChunkUploadSession_start_def split: option.splits prod.splits sum.splits pyvalue.splits)
  {
    fix response s1 uploadId
    assume "?j = Some (Inr response, s1) \<and> \<not> hasFailed response \<and>
            map_of (json_of response) ''id'' = Some (PyStr uploadId)"
    then show "ChunkUploadSession_run srv self s = Some (Inr uploadId, s1)"
      using assms(1) by (simp add: eq ChunkUploadSession_start_def)
  }
  {
    fix res s'
    assume "ChunkUploadSession_run srv self s = Some (res, s')"
    then have st: "ChunkUploadSession_start srv self s = Some (res, s')"
      by (simp add: eq)
    then obtain r0 where j: "?j = Some (r0, s')"
      using assms(1)
      by (auto simp: ChunkUploadSession_start_def
          split: option.splits prod.splits sum.splits pyvalue.splits if_splits)
    from genericJSONRequest_exchanges[OF j] obtain new where n:
      "exchanges s' = exchanges s @ new" "new \<noteq> []"
      "fst (hd new) = genericRequest_request s RequestType_post ''upload/start''
                        (Some (requestHeader s)) (JsonDumps [(''size'', PyInt 0)]) None"
      "\<forall>x\<in>set new. req_url (fst x) = make_url s ''upload/start''
                       \<or> req_url (fst x) = make_url s refreshEndpoint"
      by auto
    have "\<forall>x\<in>set new. req_url (fst x) \<noteq> make_url s ''upload/chunk''"
      using n(4) by (auto simp: make_url_def refreshEndpoint_def)
    then show "\<exists>new. exchanges s' = exchanges s @ new \<and> new \<noteq> []
              \<and> fst (hd new) =
                  genericRequest_request s RequestType_post ''upload/start'' (Some (requestHeader s))
                    (JsonDumps [(''size'', PyInt 0)]) None
              \<and> (\<forall>x\<in>set new. req_url (fst x) \<noteq> make_url s ''upload/chunk'')"
      using n by blast
  }
qed

theorem run_on_empty_file_witness:
  "fileSize empty_file_session = 0 \<and> 0 < chunkSize empty_file_session
   \<and> (\<exists>out. ChunkUploadSession_run renewing_server empty_file_session
               (sample_client\<lparr>priv_apiToken := PyStr ''new''\<rparr>) = Some out)
   \<and> map_option (\<lambda>(res, s). (res, exchange_summary s))
       (ChunkUploadSession_run renewing_server empty_file_session
          (sample_client\<lparr>priv_apiToken := PyStr ''new''\<rparr>)) =
       Some (Inr ''u1'', [(''upload/start'', Some (PyStr ''new''), Some 200)])"
proof -
  have h1: "fileSize empty_file_session = 0" and h2: "0 < chunkSize empty_file_session"
    by (simp_all add: empty_file_session_def)
  have ev: "map_option (\<lambda>(res, s). (res, exchange_summary s))
       (ChunkUploadSession_run renewing_server empty_file_session
          (sample_client\<lparr>priv_apiToken := PyStr ''new''\<rparr>)) =
       Some (Inr ''u1'', [(''upload/start'', Some (PyStr ''new''), Some 200)])"
    by code_simp
  show ?thesis
    using h1 h2 ev
      run_on_empty_file[OF h1 h2, where srv = renewing_server
        and s = "sample_client\<lparr>priv_apiToken := PyStr ''new''\<rparr>"]
    by blast
qed


section \<open>ChunkUploadSession.run: the chunk partition\<close>



























section \<open>genericDownload and the file system\<close>

lemma unauthorized_not_ok: "isUnauthorized r \<Longrightarrow> \<not> ok r"
  by (simp add: isUnauthorized_def ok_def HttpCode_unauthorized_def)

lemma genericDownload_to_directory:
  assumes "genericDownload srv ep dest ps rc s = Some y" and "Path_is_dir (fs s) dest"
  shows "fs (snd y) = fs s
       \<and> (\<exists>new. exchanges (snd y) = exchanges s @ new \<and> new \<noteq> []
             \<and> ((fst y = Inl RuntimeError) = (\<exists>r. snd (last new) = Responds r \<and> ok r)))
       \<and> (\<forall>r. fst y = Inr r \<longrightarrow> \<not> ok r)"
  using assms
proof (induction srv ep dest ps rc s y rule: genericDownload_induct)
  case (step f srv endpoint destination parameters retryCount s y)
  let ?ps = "case parameters of None \<Rightarrow> [] | Some p \<Rightarrow> p"
  obtain r1 s1 where g: "get srv endpoint (Some (requestHeader s)) NoData (Some ?ps) 0 s = (r1, s1)"
    by (cases "get srv endpoint (Some (requestHeader s)) NoData (Some ?ps) 0 s") auto
  from get_frame[OF g] obtain new1 where n1:
    "exchanges s1 = exchanges s @ new1" "new1 \<noteq> []" "snd (last new1) = outcome_reply r1"
    "fs s1 = fs s" "r1 = Inl RequestFailedError \<or> (\<exists>r. r1 = Inr r)"
    by blast
  from n1(5) show ?case
  proof
    assume e: "r1 = Inl RequestFailedError"
    then have "y = (Inl RequestFailedError, s1)"
      using step.hyps g by (simp add: Let_def)
    then show ?thesis
      using n1 e by (auto simp: outcome_reply_def)
  next
    assume "\<exists>r. r1 = Inr r"
    then obtain response where nr: "r1 = Inr response" ..
    obtain r2 s2 where sr: "shouldRetry srv retryCount response s1 = (r2, s2)"
      by (cases "shouldRetry srv retryCount response s1") auto
    from shouldRetry_frame[OF sr] obtain new2 where n2:
      "exchanges s2 = exchanges s1 @ new2" "fs s2 = fs s1"
      "case r2 of
         Inl e \<Rightarrow> e = RequestFailedError \<and> new2 \<noteq> [] \<and> snd (last new2) = Raises
       | Inr again \<Rightarrow>
           if again then retryCount \<noteq> 3
           else new2 = [] \<and> s2 = s1 \<and> (retryCount = 3 \<or> \<not> isUnauthorized response)
                \<or> (isUnauthorized response \<and> new2 \<noteq> [] \<and>
                    (\<exists>rr. snd (last new2) = Responds rr \<and> \<not> ok rr))"
      by blast
    have dir2: "Path_is_dir (fs s2) destination"
      using step.prems n1(4) n2(2) by simp
    show ?thesis
    proof (cases r2)
      case (Inl e)
      then have "y = (Inl e, s2)"
        using step.hyps g nr sr by (simp add: Let_def)
      moreover have "e = RequestFailedError" "new2 \<noteq> []" "snd (last new2) = Raises"
        using n2(3) Inl by simp_all
      ultimately show ?thesis
        using n1 n2(1,2) by (auto intro!: exI[of _ "new1 @ new2"])
    next
      case (Inr again)
      show ?thesis
      proof (cases again)
        case True
        then have "f srv endpoint destination (Some ?ps) (retryCount + 1) s2 = Some y"
          using step.hyps g nr sr Inr by (simp add: Let_def)
        from step.IH[OF this dir2] obtain new3 where n3:
          "fs (snd y) = fs s2" "exchanges (snd y) = exchanges s2 @ new3" "new3 \<noteq> []"
          "(fst y = Inl RuntimeError) = (\<exists>r. snd (last new3) = Responds r \<and> ok r)"
          "\<forall>r. fst y = Inr r \<longrightarrow> \<not> ok r"
          by blast
        show ?thesis
          using n1 n2(1,2) n3 by (auto intro!: exI[of _ "new1 @ new2 @ new3"])
      next
        case False
        show ?thesis
        proof (cases "ok response")
          case okr: True
          then have nu: "\<not> isUnauthorized response"
            using unauthorized_not_ok by blast
          have y: "y = (Inl RuntimeError, s2)"
            using step.hyps g nr sr Inr False okr dir2 by (simp add: Let_def)
          have "new2 = []"
            using n2(3) Inr False nu by simp
          then show ?thesis
            using y n1 n2(1,2) nr okr
            by (auto intro!: exI[of _ new1] simp: outcome_reply_def)
        next
          case nok: False
          have y: "y = (Inr response, s2)"
            using step.hyps g nr sr Inr False nok by (simp add: Let_def)
          have "new2 = [] \<or> (new2 \<noteq> [] \<and> (\<exists>rr. snd (last new2) = Responds rr \<and> \<not> ok rr))"
            using n2(3) Inr False by auto
          then show ?thesis
            using y n1 n2(1,2) nr nok
            by (auto intro!: exI[of _ "new1 @ new2"] simp: outcome_reply_def)
        qed
      qed
    qed
  qed
qed


text \<open>
  C8. When the destination is an existing directory, \<open>genericDownload\<close> never touches the
  file system, whatever happens on the wire; the call ends with \<open>RuntimeError\<close> exactly
  when the last thing received was an ok response, and it never hands back an ok response.
  Started with \<open>retryCount \<le> 3\<close> it returns.
\<close>

theorem genericDownload_destination_is_directory:
  assumes "Path_is_dir (fs s) destination"
  shows "(retryCount \<le> 3 \<longrightarrow>
            (\<exists>out. genericDownload srv endpoint destination parameters retryCount s = Some out))
       \<and> (\<forall>res s'. genericDownload srv endpoint destination parameters retryCount s = Some (res, s') \<longrightarrow>
            fs s' = fs s
          \<and> (\<exists>new. exchanges s' = exchanges s @ new \<and> new \<noteq> []
                \<and> ((res = Inl RuntimeError) = (\<exists>r. snd (last new) = Responds r \<and> ok r)))
          \<and> (\<forall>r. res = Inr r \<longrightarrow> \<not> ok r))"
proof (intro conjI allI impI)
  assume "retryCount \<le> 3"
  then show "\<exists>out. genericDownload srv endpoint destination parameters retryCount s = Some out"
    using genericDownload_returns[of retryCount srv endpoint destination parameters s] by auto
next
  fix res s'
  assume d: "genericDownload srv endpoint destination parameters retryCount s = Some (res, s')"
  note th = genericDownload_to_directory[OF d assms]
  show "fs s' = fs s"
    using th by simp
  show "\<exists>new. exchanges s' = exchanges s @ new \<and> new \<noteq> []
          \<and> ((res = Inl RuntimeError) = (\<exists>r. snd (last new) = Responds r \<and> ok r))"
    using th by simp
  fix r
  assume "res = Inr r"
  then show "\<not> ok r"
    using th by simp
qed

theorem genericDownload_destination_is_directory_witness:
  "Path_is_dir (fs download_client) [''out'']
   \<and> map_option (\<lambda>(res, s). (res, exchange_summary s))
       (genericDownload renewing_server ''file/1'' [''out''] None 0 download_client) =
       Some (Inl RuntimeError, [(''file/1'', Some (PyStr ''new''), Some 200)])
   \<and> fs (snd (the (genericDownload renewing_server ''file/1'' [''out''] None 0 download_client))) =
       fs download_client"
proof -
  let ?d = "genericDownload renewing_server ''file/1'' [''out''] None 0 download_client"
  have h: "Path_is_dir (fs download_client) [''out'']"
    by (simp add: Path_is_dir_def node_at_def download_client_def)
  have ev: "map_option (\<lambda>(res, s). (res, exchange_summary s)) ?d =
              Some (Inl RuntimeError, [(''file/1'', Some (PyStr ''new''), Some 200)])"
    by code_simp
  then have "map_option fst ?d = Some (Inl RuntimeError)"
    by (cases ?d) auto
  then have "?d = Some (Inl RuntimeError, snd (the ?d))"
    by (rule option_pair_the)
  then have "fs (snd (the ?d)) = fs download_client"
    using genericDownload_destination_is_directory[OF h, where srv = renewing_server
        and endpoint = "''file/1''" and parameters = None and retryCount = 0]
    by blast
  then show ?thesis
    using h ev by blast
qed

















end
